theory Spec2Isabelle
  imports Main "HOL-Library.Word"
begin

unbundle bit_operations_syntax

section \<open>Errors, panics and the HTTP response writer\<close>

type_synonym byte = "8 word"

text \<open>
  The error values of \<^verbatim>\<open>cmd/storage-rest-server.go\<close>. The sentinel errors are the
  package-level variables the file compares against with \<^verbatim>\<open>==\<close>, \<^verbatim>\<open>switch\<close> and
  \<^verbatim>\<open>errors.Is\<close>; \<open>errors_New\<close> is \<^verbatim>\<open>errors.New(string(text))\<close>, \<open>unexpected_filler\<close> is
  \<^verbatim>\<open>fmt.Errorf("unexpected filler byte: %d", b)\<close>, and \<open>Wrap\<close> is an error that adds a
  layer of context around a cause (the cause is what \<^verbatim>\<open>errors.Unwrap\<close> returns).
\<close>

datatype err =
    errDiskStale
  | errDiskNotFound
  | errFileNotFound
  | errFileVersionNotFound
  | errInvalidAccessKeyID
  | errAccessKeyDisabled
  | errNoAuthToken
  | errMalformedAuth
  | errAuthentication
  | errSkewedAuthTime
  | context_Canceled
  | context_DeadlineExceeded
  | errInvalidArgument
  | errUnsupportedDisk
  | errDiskAccessDenied
  | errFileAccessDenied
  | errDiskNotDir
  | errFaultyDisk
  | errXLBackend
  | errDiskFull
  | io_EOF
  | io_ErrUnexpectedEOF
  | errors_New "byte list"
  | unexpected_filler byte
  | Wrap string err

text \<open>A Go call either returns or panics (index out of range, nil dereference).\<close>

datatype 'a go = Panic | Ret 'a

text \<open>
  \<^verbatim>\<open>http.ResponseWriter\<close>, as far as \<^verbatim>\<open>writeErrorResponse\<close> uses it: the status line is
  fixed by the first \<^verbatim>\<open>WriteHeader\<close> (or by the first \<^verbatim>\<open>Write\<close>, as 200), and the body
  grows with each \<^verbatim>\<open>Write\<close>. The message constants of the sentinel errors live in other
  files, so \<open>body\<close> records which error's \<^verbatim>\<open>Error()\<close> text was written.
\<close>

record response =
  statusCode :: "nat option"
  body :: "err list"

definition WriteHeader :: "nat \<Rightarrow> response \<Rightarrow> response" where
  "WriteHeader code w = (if statusCode w = None then w\<lparr>statusCode := Some code\<rparr> else w)"

definition Write_Error :: "err \<Rightarrow> response \<Rightarrow> response" where
  "Write_Error e w = (WriteHeader 200 w)\<lparr>body := body w @ [e]\<rparr>"

definition StatusPreconditionFailed :: nat where "StatusPreconditionFailed = 412"
definition StatusNotFound :: nat where "StatusNotFound = 404"
definition StatusUnauthorized :: nat where "StatusUnauthorized = 401"
definition StatusForbidden :: nat where "StatusForbidden = 403"

text \<open>
  Modelled from the spec: \<^verbatim>\<open>unwrapAll\<close> is defined in another file of the package.
  ``Classification first unwraps nested causes so that added context from intermediate
  layers never defeats matching against the root condition'': every layer of context is
  removed until an error without a cause is reached.
\<close>

fun unwrapAll :: "err \<Rightarrow> err" where
  "unwrapAll (Wrap ctx e) = unwrapAll e"
| "unwrapAll e = e"

definition writeErrorResponse :: "response \<Rightarrow> err \<Rightarrow> response" where
  "writeErrorResponse w err0 =
    (let err = unwrapAll err0;
         w1 =
          (if err = errDiskStale then WriteHeader StatusPreconditionFailed w
           else if err = errFileNotFound \<or> err = errFileVersionNotFound
             then WriteHeader StatusNotFound w
           else if err = errInvalidAccessKeyID \<or> err = errAccessKeyDisabled
                 \<or> err = errNoAuthToken \<or> err = errMalformedAuth
                 \<or> err = errAuthentication \<or> err = errSkewedAuthTime
             then WriteHeader StatusUnauthorized w
           else if err = context_Canceled \<or> err = context_DeadlineExceeded
             then WriteHeader 499 w
           else WriteHeader StatusForbidden w)
     in Write_Error err w1)"

section \<open>The disk registry and request authentication\<close>

text \<open>
  Of the storage collaborator only the identity accessor matters to the gateway:
  \<open>GetDiskID\<close> is the outcome of \<^verbatim>\<open>GetDiskID()\<close> on the attached drive.
\<close>

record StorageAPI =
  GetDiskID :: "err + string"

record storageRESTServer =
  poolIndex :: int
  setIndex :: int
  diskIndex :: int

text \<open>Indexing a Go slice panics outside \<open>0 \<le> i < len\<close>.\<close>

definition index :: "'a list \<Rightarrow> int \<Rightarrow> 'a go" where
  "index xs i = (if 0 \<le> i \<and> i < int (length xs) then Ret (xs ! nat i) else Panic)"

text \<open>
  \<^verbatim>\<open>globalLocalSetDrives[s.poolIndex][s.setIndex][s.diskIndex]\<close>; a slot holding \<open>None\<close>
  is a nil \<^verbatim>\<open>StorageAPI\<close>, a drive that is not attached.
\<close>

definition getStorage ::
  "StorageAPI option list list list \<Rightarrow> storageRESTServer \<Rightarrow> StorageAPI option go" where
  "getStorage drives s =
    (case index drives (poolIndex s) of
       Panic \<Rightarrow> Panic
     | Ret pool \<Rightarrow>
        (case index pool (setIndex s) of
           Panic \<Rightarrow> Panic
         | Ret st \<Rightarrow> index st (diskIndex s)))"

record credentials =
  AccessKey :: string
  SecretKey :: string

record claims =
  claims_AccessKey :: string
  claims_Subject :: string
  claims_Audience :: string

datatype extract_error = ErrNoTokenInRequest | ErrOtherExtract

record request =
  Authorization :: string
  RawQuery :: string
  X_Minio_Time :: string
  ParseForm :: "err + string"

text \<open>
  The process state and the library calls the gateway makes. \<open>globals\<close> holds the
  package-level drive tables. \<open>ExtractToken\<close> is
  \<^verbatim>\<open>jwtreq.AuthorizationHeaderExtractor.ExtractToken\<close> on the authorization header,
  \<open>ParseWithStandardClaims token key\<close> is \<^verbatim>\<open>xjwt.ParseWithStandardClaims\<close> (\<open>None\<close> when
  it returns an error), \<open>time_Parse\<close> is \<^verbatim>\<open>time.Parse(time.RFC3339, _)\<close> giving
  nanoseconds since the Unix epoch (\<open>None\<close> on a parse error) and \<open>UTCNow\<close> is the clock,
  in the same unit. In \<open>request\<close>, \<open>ParseForm\<close> is the outcome of \<^verbatim>\<open>r.ParseForm()\<close> and, when
  it succeeds, the value of \<^verbatim>\<open>r.Form.Get(storageRESTDiskID)\<close>.
\<close>

record registry =
  globalLocalDrives :: "StorageAPI list"
  globalLocalSetDrives :: "StorageAPI option list list list"

record env =
  globals :: registry
  globalActiveCred :: credentials
  UTCNow :: int
  ExtractToken :: "string \<Rightarrow> extract_error + string"
  ParseWithStandardClaims :: "string \<Rightarrow> string \<Rightarrow> claims option"
  time_Parse :: "string \<Rightarrow> int option"

text \<open>
  \<^verbatim>\<open>time.Duration\<close> is an \<^verbatim>\<open>int64\<close> count of nanoseconds; arithmetic on it wraps around.
\<close>

definition wrap64 :: "int \<Rightarrow> int" where
  "wrap64 x = (x + 2 ^ 63) mod 2 ^ 64 - 2 ^ 63"

definition minDuration :: int where "minDuration = - (2 ^ 63)"
definition maxDuration :: int where "maxDuration = 2 ^ 63 - 1"

text \<open>
  \<^verbatim>\<open>Time.Sub\<close> of the standard library: ``If the result exceeds the maximum (or minimum)
  value that can be stored in a Duration, the maximum (or minimum) duration will be
  returned.''
\<close>

definition time_Sub :: "int \<Rightarrow> int \<Rightarrow> int" where
  "time_Sub t u =
    (if t - u < minDuration then minDuration
     else if maxDuration < t - u then maxDuration
     else t - u)"

definition Minute :: int where "Minute = 60 * 1000000000"

definition DefaultSkewTime :: int where "DefaultSkewTime = 15 * Minute"

definition storageServerRequestValidate :: "env \<Rightarrow> request \<Rightarrow> err option" where
  "storageServerRequestValidate E r =
    (case ExtractToken E (Authorization r) of
       Inl e \<Rightarrow> (if e = ErrNoTokenInRequest then Some errNoAuthToken else Some errMalformedAuth)
     | Inr token \<Rightarrow>
        (case ParseWithStandardClaims E token (SecretKey (globalActiveCred E)) of
           None \<Rightarrow> Some errAuthentication
         | Some cl \<Rightarrow>
            (let owner = (claims_AccessKey cl = AccessKey (globalActiveCred E)
                          \<or> claims_Subject cl = AccessKey (globalActiveCred E))
             in if \<not> owner then Some errAuthentication
                else if claims_Audience cl \<noteq> RawQuery r then Some errAuthentication
                else
                 (case time_Parse E (X_Minio_Time r) of
                    None \<Rightarrow> Some errMalformedAuth
                  | Some requestTime \<Rightarrow>
                     (let delta0 = time_Sub requestTime (UTCNow E);
                          delta = (if delta0 < 0 then wrap64 (delta0 * (- 1)) else delta0)
                      in if delta > DefaultSkewTime then Some errSkewedAuthTime
                         else None)))))"

section \<open>The gateway checks\<close>

definition IsAuthValid ::
  "env \<Rightarrow> storageRESTServer \<Rightarrow> response \<Rightarrow> request \<Rightarrow> (bool \<times> response) go" where
  "IsAuthValid E s w r =
    (case getStorage (globalLocalSetDrives (globals E)) s of
       Panic \<Rightarrow> Panic
     | Ret None \<Rightarrow> Ret (False, writeErrorResponse w errDiskNotFound)
     | Ret (Some st) \<Rightarrow>
        (case storageServerRequestValidate E r of
           Some e \<Rightarrow> Ret (False, writeErrorResponse w e)
         | None \<Rightarrow> Ret (True, w)))"

definition IsValid ::
  "env \<Rightarrow> storageRESTServer \<Rightarrow> response \<Rightarrow> request \<Rightarrow> (bool \<times> response) go" where
  "IsValid E s w r =
    (case IsAuthValid E s w r of
       Panic \<Rightarrow> Panic
     | Ret (False, w1) \<Rightarrow> Ret (False, w1)
     | Ret (True, w1) \<Rightarrow>
        (case ParseForm r of
           Inl e \<Rightarrow> Ret (False, writeErrorResponse w1 e)
         | Inr diskID \<Rightarrow>
            if diskID = [] then Ret (True, w1)
            else
             (case getStorage (globalLocalSetDrives (globals E)) s of
                Panic \<Rightarrow> Panic
              | Ret None \<Rightarrow> Panic
              | Ret (Some st) \<Rightarrow>
                 (case GetDiskID st of
                    Inl e \<Rightarrow> Ret (False, writeErrorResponse w1 e)
                  | Inr storedDiskID \<Rightarrow>
                     if diskID \<noteq> storedDiskID
                     then Ret (False, writeErrorResponse w1 errDiskStale)
                     else Ret (True, w1)))))"

definition checkID ::
  "StorageAPI option list list list \<Rightarrow> storageRESTServer \<Rightarrow> string \<Rightarrow> bool go" where
  "checkID drives s wantID =
    (case getStorage drives s of
       Panic \<Rightarrow> Panic
     | Ret None \<Rightarrow> Ret False
     | Ret (Some st) \<Rightarrow>
        if wantID = [] then Ret True
        else
         (case GetDiskID st of
            Inl e \<Rightarrow> Ret False
          | Inr storedDiskID \<Rightarrow> Ret (wantID = storedDiskID)))"

text \<open>
  A handler either rejects the call with an error or goes on to the storage
  collaborator. Every HTTP handler of the file opens with
  \<^verbatim>\<open>if !s.IsValid(w, r) { return }\<close> (\<^verbatim>\<open>HealthHandler\<close> is that call alone), and every
  grid handler opens as \<^verbatim>\<open>DiskInfoHandler\<close> does; what follows the gate is the
  parameter \<open>dispatch\<close>.
\<close>

definition HealthHandler ::
  "env \<Rightarrow> storageRESTServer \<Rightarrow> response \<Rightarrow> request \<Rightarrow> response go" where
  "HealthHandler E s w r =
    (case IsValid E s w r of Panic \<Rightarrow> Panic | Ret (ok, w1) \<Rightarrow> Ret w1)"

definition httpHandler ::
  "(response \<Rightarrow> response go) \<Rightarrow> env \<Rightarrow> storageRESTServer \<Rightarrow> response \<Rightarrow> request
    \<Rightarrow> response go" where
  "httpHandler dispatch E s w r =
    (case IsValid E s w r of
       Panic \<Rightarrow> Panic
     | Ret (False, w1) \<Rightarrow> Ret w1
     | Ret (True, w1) \<Rightarrow> dispatch w1)"

datatype 'a remote = RemoteErr err | Reply 'a

definition DiskInfoHandler ::
  "'a go \<Rightarrow> StorageAPI option list list list \<Rightarrow> storageRESTServer \<Rightarrow> string
    \<Rightarrow> 'a remote go" where
  "DiskInfoHandler dispatch drives s diskID =
    (case checkID drives s diskID of
       Panic \<Rightarrow> Panic
     | Ret False \<Rightarrow> Ret (RemoteErr errDiskNotFound)
     | Ret True \<Rightarrow> (case dispatch of Panic \<Rightarrow> Panic | Ret info \<Rightarrow> Ret (Reply info)))"

section \<open>Keep-alive framing: the server side\<close>

text \<open>
  The body stream of a response, as the framing goroutines see it through
  \<^verbatim>\<open>w.Write\<close>. \<open>wire\<close> is what has reached the transport. \<open>room\<close> models a connection
  that can break: \<open>None\<close> is a connection that accepts every write, \<open>Some k\<close> one that
  accepts \<open>k\<close> more bytes and then fails every write (a short count and an error).
\<close>

record connection =
  wire :: "byte list"
  room :: "nat option"

definition conn_Write :: "byte list \<Rightarrow> connection \<Rightarrow> (nat \<times> bool) \<times> connection" where
  "conn_Write b c =
    (case room c of
       None \<Rightarrow> ((length b, False), c\<lparr>wire := wire c @ b\<rparr>)
     | Some k \<Rightarrow>
        if length b \<le> k
        then ((length b, False), c\<lparr>wire := wire c @ b, room := Some (k - length b)\<rparr>)
        else ((k, True), c\<lparr>wire := wire c @ take k b, room := Some 0\<rparr>))"

text \<open>
  The local state of a framing goroutine: the \<^verbatim>\<open>canWrite\<close> flag, the response it writes
  to, and whether it is still in its loop (\<open>running\<close>) or has returned.
\<close>

record task =
  canWrite :: bool
  conn :: connection
  running :: bool


definition task_write :: "byte list \<Rightarrow> 'a task_scheme \<Rightarrow> 'a task_scheme" where
  "task_write b t =
    (if canWrite t
     then (case conn_Write b (conn t) of
             ((n, failed), c) \<Rightarrow> t\<lparr>conn := c, canWrite := \<not> (failed \<or> n \<noteq> length b)\<rparr>)
     else t)"

text \<open>
  A Go error reaches the framing code only through \<^verbatim>\<open>err != nil\<close> and \<^verbatim>\<open>err.Error()\<close>, so
  on this side an error is its message text, and \<open>None\<close> is nil.
\<close>

type_synonym error_text = "byte list"

text \<open>
  The cases a \<^verbatim>\<open>select\<close> can take. A goroutine's step function is one iteration of its
  loop for the case that fires; a case its \<^verbatim>\<open>select\<close> does not list never fires there,
  and neither does any case once the goroutine has returned (the state is left as it is).
\<close>

datatype select_case =
    ticker_C
  | doneCh "error_text option"
  | blockCh "byte list"
  | bodyDoneCh
  | ctx_Done

definition terminal :: "error_text option \<Rightarrow> 'a task_scheme \<Rightarrow> 'a task_scheme" where
  "terminal e t = (case e of Some text \<Rightarrow> task_write text (task_write [1] t) | None \<Rightarrow> task_write [0] t)"

definition PutUint32 :: "32 word \<Rightarrow> byte list" where
  "PutUint32 v = [ucast v, ucast (drop_bit 8 v), ucast (drop_bit 16 v), ucast (drop_bit 24 v)]"



definition streamHTTPResponse_step :: "select_case \<Rightarrow> task \<Rightarrow> task" where
  "streamHTTPResponse_step ev t =
    (if \<not> running t then t
     else case ev of
       ticker_C \<Rightarrow> task_write [32] t
     | doneCh e \<Rightarrow> (terminal e t)\<lparr>running := False\<rparr>
     | blockCh block \<Rightarrow>
         task_write block (task_write (2 # PutUint32 (word_of_nat (length block))) t)
     | _ \<Rightarrow> t)"







text \<open>
  \<^verbatim>\<open>httpStreamResponse\<close>: \<open>h_done\<close> is \<^verbatim>\<open>h.done != nil\<close>, \<open>h_err\<close> is \<^verbatim>\<open>h.err\<close>, and
  \<open>h_task\<close> is the goroutine at the other end of \<^verbatim>\<open>h.done\<close> and \<^verbatim>\<open>h.block\<close>. Both
  channels are unbuffered, so a send completes when the goroutine takes it.
\<close>

record httpStreamResponse =
  h_done :: bool
  h_err :: "error_text option"
  h_task :: task

definition streamHTTPResponse :: "connection \<Rightarrow> httpStreamResponse" where
  "streamHTTPResponse w =
    \<lparr>h_done = True, h_err = None,
     h_task = \<lparr>canWrite = True, conn = w, running = True\<rparr>\<rparr>"

definition Write ::
  "byte list \<Rightarrow> httpStreamResponse
    \<Rightarrow> ((nat \<times> error_text option) \<times> httpStreamResponse) option" where
  "Write b h =
    (if length b = 0 \<or> h_err h \<noteq> None then Some ((0, h_err h), h)
     else if running (h_task h)
       then Some ((length b, h_err h),
                  h\<lparr>h_task := streamHTTPResponse_step (blockCh b) (h_task h)\<rparr>)
     else None)"

definition CloseWithError ::
  "error_text option \<Rightarrow> httpStreamResponse \<Rightarrow> httpStreamResponse option" where
  "CloseWithError e h =
    (if \<not> h_done h then Some h
     else if running (h_task h)
       then Some (h\<lparr>h_task := streamHTTPResponse_step (doneCh e) (h_task h),
                     h_err := e, h_done := False\<rparr>)
     else None)"

text \<open>
  A session of the block-streaming writer: the calls of the producer in order, with the
  moments the ticker fires in between.
\<close>

datatype stream_op = Tick | WriteOp "byte list" | CloseOp "error_text option"

fun run_stream :: "stream_op list \<Rightarrow> httpStreamResponse \<Rightarrow> httpStreamResponse option" where
  "run_stream [] h = Some h"
| "run_stream (Tick # ops) h =
     run_stream ops (h\<lparr>h_task := streamHTTPResponse_step ticker_C (h_task h)\<rparr>)"
| "run_stream (WriteOp b # ops) h =
     (case Write b h of None \<Rightarrow> None | Some (res, h1) \<Rightarrow> run_stream ops h1)"
| "run_stream (CloseOp e # ops) h =
     (case CloseWithError e h of None \<Rightarrow> None | Some h1 \<Rightarrow> run_stream ops h1)"




section \<open>Keep-alive framing: the client side\<close>

text \<open>
  A response body is a finite byte stream that ends with EOF, and the \<^verbatim>\<open>io.Writer\<close> the
  payload goes to is a buffer that takes every write; both are byte lists. The calls into
  package \<^verbatim>\<open>io\<close> return what they return on such a stream:
  \<^item> \<open>ReadFull n\<close> is \<^verbatim>\<open>io.ReadFull\<close> into a buffer of \<open>n\<close> bytes: the bytes and the rest of
    the stream, or \<^verbatim>\<open>io.EOF\<close> when nothing could be read and \<^verbatim>\<open>io.ErrUnexpectedEOF\<close> when
    the stream ends part-way;
  \<^item> \<open>ReadAll\<close> is \<^verbatim>\<open>io.ReadAll\<close>: the rest of the stream, and nil at EOF;
  \<^item> \<open>LimitReader r n\<close> is what can be read through \<^verbatim>\<open>io.LimitReader(r, n)\<close>, and what is
    left of \<open>r\<close> once that has been read;
  \<^item> \<open>CopyBuffer w src\<close> is \<^verbatim>\<open>io.CopyBuffer(w, src, buf)\<close>: the number of bytes copied and
    the error, which is nil at EOF, with \<open>w\<close> after the copy.
\<close>

definition ReadFull :: "nat \<Rightarrow> byte list \<Rightarrow> (err + byte list) \<times> byte list" where
  "ReadFull n s =
    (if n \<le> length s then (Inr (take n s), drop n s)
     else if s = [] then (Inl io_EOF, [])
     else (Inl io_ErrUnexpectedEOF, []))"

definition ReadAll :: "byte list \<Rightarrow> byte list \<times> err option" where
  "ReadAll s = (s, None)"

definition LimitReader :: "byte list \<Rightarrow> nat \<Rightarrow> byte list \<times> byte list" where
  "LimitReader r n = (take n r, drop n r)"

definition CopyBuffer :: "byte list \<Rightarrow> byte list \<Rightarrow> (nat \<times> err option) \<times> byte list" where
  "CopyBuffer w src = ((length src, None), w @ src)"

text \<open>\<^verbatim>\<open>binary.LittleEndian.Uint32\<close> on a buffer of four bytes.\<close>

definition Uint32 :: "byte list \<Rightarrow> 32 word" where
  "Uint32 b =
    ucast (b ! 0) OR push_bit 8 (ucast (b ! 1)) OR push_bit 16 (ucast (b ! 2))
      OR push_bit 24 (ucast (b ! 3))"

text \<open>
  \<open>waitForHTTPResponse respBody\<close> returns the error or the reader that holds the payload,
  which is the rest of the stream.
\<close>

fun waitForHTTPResponse :: "byte list \<Rightarrow> err + byte list" where
  "waitForHTTPResponse [] = Inl io_EOF"
| "waitForHTTPResponse (b # reader) =
     (if b = 0 then Inr reader
      else if b = 1 then
        (case ReadAll reader of
           (errorText, Some e) \<Rightarrow> Inl e
         | (errorText, None) \<Rightarrow> Inl (errors_New errorText))
      else if b = 32 then waitForHTTPResponse reader
      else Inl (unexpected_filler b))"

text \<open>
  \<open>waitForHTTPStream respBody w\<close> returns what has been written to \<open>w\<close> and the error
  (\<open>None\<close> is nil).
\<close>

function waitForHTTPStream :: "byte list \<Rightarrow> byte list \<Rightarrow> byte list \<times> err option" where
  "waitForHTTPStream respBody w =
    (case ReadFull 1 respBody of
       (Inl e, rest) \<Rightarrow> (w, Some e)
     | (Inr tmp, rest) \<Rightarrow>
        if tmp ! 0 = 0 then
          (case CopyBuffer w rest of
             ((n, e), w1) \<Rightarrow> if e = Some io_EOF then (w1, None) else (w1, e))
        else if tmp ! 0 = 1 then
          (case ReadAll rest of
             (errorText, Some e) \<Rightarrow> (w, Some e)
           | (errorText, None) \<Rightarrow> (w, Some (errors_New errorText)))
        else if tmp ! 0 = 2 then
          (case ReadFull 4 rest of
             (Inl e, rest1) \<Rightarrow> (w, Some e)
           | (Inr tmp4, rest1) \<Rightarrow>
              (let len = Uint32 tmp4 in
               case LimitReader rest1 (unat len) of
                 (limited, rest2) \<Rightarrow>
                  (case CopyBuffer w limited of
                     ((n, e), w1) \<Rightarrow>
                       if e \<noteq> None then (w1, e)
                       else if n \<noteq> unat len then (w1, Some io_ErrUnexpectedEOF)
                       else waitForHTTPStream rest2 w1)))
        else if tmp ! 0 = 32 then waitForHTTPStream rest w
        else (w, Some (unexpected_filler (tmp ! 0))))"
  by pat_completeness auto
termination
  by (relation "measure (\<lambda>(respBody, w). length respBody)")
     (auto simp: ReadFull_def LimitReader_def split: if_splits)

declare waitForHTTPStream.simps [simp del]

section \<open>The reader as the state machine of the specification\<close>

text \<open>
  The second description of the client side, written from the specification and not from
  the code: a machine that takes the stream one byte at a time. In \<open>ReadTag\<close> it reads
  a tag byte: heartbeat (0x20), skip and continue; success (0x00), pass the remaining
  stream through; error (0x01), the rest of the stream is the failure text; data block
  (0x02), a 4-byte little-endian unsigned length and then exactly that many payload
  bytes, then back to reading a tag; any other byte is a protocol violation, and the
  machine fails at once. The second component is the payload delivered so far. What the
  machine reports when the stream ends is \<open>reader_end\<close>: a block cut short is the
  truncation error; for a stream that ends where a tag or a length field should start
  the specification names no error, and the ones of \<^verbatim>\<open>io.ReadFull\<close> are used.
\<close>

datatype reader_state =
    ReadTag
  | PassThrough
  | ErrorMessage "byte list"
  | BlockLength "byte list"
  | BlockPayload nat
  | Violation byte

fun little_endian :: "byte list \<Rightarrow> nat" where
  "little_endian [] = 0"
| "little_endian (b # bs) = unat b + 256 * little_endian bs"

fun reader_step :: "reader_state \<times> byte list \<Rightarrow> byte \<Rightarrow> reader_state \<times> byte list" where
  "reader_step (ReadTag, out) b =
     (if b = 0x20 then (ReadTag, out)
      else if b = 0x00 then (PassThrough, out)
      else if b = 0x01 then (ErrorMessage [], out)
      else if b = 0x02 then (BlockLength [], out)
      else (Violation b, out))"
| "reader_step (PassThrough, out) b = (PassThrough, out @ [b])"
| "reader_step (ErrorMessage text, out) b = (ErrorMessage (text @ [b]), out)"
| "reader_step (BlockLength field, out) b =
     (if length field < 3 then (BlockLength (field @ [b]), out)
      else if little_endian (field @ [b]) = 0 then (ReadTag, out)
      else (BlockPayload (little_endian (field @ [b])), out))"
| "reader_step (BlockPayload n, out) b =
     (if n \<le> 1 then (ReadTag, out @ [b]) else (BlockPayload (n - 1), out @ [b]))"
| "reader_step (Violation t, out) b = (Violation t, out)"

fun reader_end :: "reader_state \<times> byte list \<Rightarrow> byte list \<times> err option" where
  "reader_end (ReadTag, out) = (out, Some io_EOF)"
| "reader_end (PassThrough, out) = (out, None)"
| "reader_end (ErrorMessage text, out) = (out, Some (errors_New text))"
| "reader_end (BlockLength field, out) =
     (out, Some (if field = [] then io_EOF else io_ErrUnexpectedEOF))"
| "reader_end (BlockPayload n, out) = (out, Some io_ErrUnexpectedEOF)"
| "reader_end (Violation t, out) = (out, Some (unexpected_filler t))"

definition frame_reader :: "byte list \<Rightarrow> byte list \<Rightarrow> byte list \<times> err option" where
  "frame_reader respBody w = reader_end (foldl reader_step (ReadTag, w) respBody)"

section \<open>Frames on the wire\<close>

text \<open>
  What the goroutine of \<^verbatim>\<open>streamHTTPResponse\<close> writes for a tick and for a block, and what
  each of the three goroutines writes when the operation is done. A block fits its frame
  when its length can be written in the four bytes of the length field.
\<close>

datatype frame = Heartbeat | DataBlock "byte list"

fun frame_bytes :: "frame \<Rightarrow> byte list" where
  "frame_bytes Heartbeat = [32]"
| "frame_bytes (DataBlock b) = 2 # PutUint32 (word_of_nat (length b)) @ b"

fun fits :: "frame \<Rightarrow> bool" where
  "fits Heartbeat = True"
| "fits (DataBlock b) = (length b < 2 ^ 32)"

definition terminal_bytes :: "error_text option \<Rightarrow> byte list" where
  "terminal_bytes e = (case e of None \<Rightarrow> [0] | Some text \<Rightarrow> 1 # text)"

definition stream_wire :: "httpStreamResponse \<Rightarrow> byte list" where
  "stream_wire h = wire (conn (h_task h))"

text \<open>A task that can still write, on a connection that accepts every write.\<close>

definition healthy :: "'a task_scheme \<Rightarrow> bool" where
  "healthy t = (canWrite t \<and> room (conn t) = None)"

definition fresh :: connection where
  "fresh = \<lparr>wire = [], room = None\<rparr>"




definition live :: "httpStreamResponse \<Rightarrow> bool" where
  "live h = (h_done h \<and> h_err h = None \<and> running (h_task h) \<and> healthy (h_task h))"



section \<open>Drive bootstrap\<close>














section \<open>Sample values\<close>

text \<open>
  A one-drive node used to run the definitions on concrete inputs: its clock stands at
  2026-10-31T00:00:00Z, the token parser knows two tokens under the node's secret, one
  issued for the node's own access key and one for another key, and the timestamp parser
  knows the timestamps listed.
\<close>

definition sample_server :: storageRESTServer where
  "sample_server = \<lparr>poolIndex = 0, setIndex = 0, diskIndex = 0\<rparr>"

definition sample_claims :: claims where
  "sample_claims =
    \<lparr>claims_AccessKey = ''minio'', claims_Subject = [], claims_Audience = ''disk-id=d1''\<rparr>"

definition sample_env :: "StorageAPI option \<Rightarrow> env" where
  "sample_env slot =
    \<lparr>globals = \<lparr>globalLocalDrives = [], globalLocalSetDrives = [[[slot]]]\<rparr>,
     globalActiveCred = \<lparr>AccessKey = ''minio'', SecretKey = ''secret''\<rparr>,
     UTCNow = 1793404800 * 1000000000,
     ExtractToken = (\<lambda>h. if h = [] then Inl ErrNoTokenInRequest else Inr h),
     ParseWithStandardClaims =
       (\<lambda>token key.
          if key \<noteq> ''secret'' then None
          else if token = ''signed-for-minio'' then Some sample_claims
          else if token = ''signed-for-other''
            then Some (sample_claims\<lparr>claims_AccessKey := ''other''\<rparr>)
          else None),
     time_Parse = map_of
       [(''2026-10-31T00:00:00Z'', 1793404800 * 1000000000),
        (''2026-10-31T00:15:00Z'', 1793405700 * 1000000000),
        (''2026-10-31T00:15:01Z'', 1793405701 * 1000000000),
        (''2026-10-30T23:45:00Z'', 1793403900 * 1000000000),
        (''2026-10-30T23:44:59Z'', 1793403899 * 1000000000),
        (''1700-01-01T00:00:00Z'', - 8520336000 * 1000000000)]\<rparr>"

definition sample_request :: "string \<Rightarrow> string \<Rightarrow> string \<Rightarrow> string \<Rightarrow> request" where
  "sample_request token query time diskID =
    \<lparr>Authorization = token, RawQuery = query, X_Minio_Time = time, ParseForm = Inr diskID\<rparr>"

definition sample_drive :: StorageAPI where
  "sample_drive = \<lparr>GetDiskID = Inr ''d1''\<rparr>"

section \<open>Error classification\<close>

lemma writeErrorResponse_unwrap:
  "writeErrorResponse w (foldr Wrap ctxs e) = writeErrorResponse w e"
  by (induction ctxs) (simp_all add: writeErrorResponse_def)

text \<open>
  C4, as the code has it. On a response whose status line is not yet written,
  \<^verbatim>\<open>writeErrorResponse\<close> picks the status from the root condition of the error: stale
  drive is 412; file not found and file-version not found are 404; the six
  authentication errors are 401; context cancellation and deadline are 499; every other
  error is 403, and drive not found is one of those. Layers of context around the error
  change nothing in the response.
\<close>

theorem writeErrorResponse_status:
  assumes "statusCode w = None"
  shows "statusCode (writeErrorResponse w e) = Some
           (if unwrapAll e = errDiskStale then 412
            else if unwrapAll e \<in> {errFileNotFound, errFileVersionNotFound} then 404
            else if unwrapAll e \<in> {errInvalidAccessKeyID, errAccessKeyDisabled,
                    errNoAuthToken, errMalformedAuth, errAuthentication, errSkewedAuthTime}
              then 401
            else if unwrapAll e \<in> {context_Canceled, context_DeadlineExceeded} then 499
            else 403)
         \<and> statusCode (writeErrorResponse w errDiskNotFound) = Some 403
         \<and> writeErrorResponse w (foldr Wrap ctxs e) = writeErrorResponse w e"
  using assms
  by (simp add: writeErrorResponse_unwrap)
     (simp add: writeErrorResponse_def Let_def WriteHeader_def Write_Error_def
        StatusPreconditionFailed_def StatusNotFound_def StatusUnauthorized_def
        StatusForbidden_def)

theorem writeErrorResponse_status_witness:
  "statusCode (writeErrorResponse \<lparr>statusCode = None, body = []\<rparr>
      (Wrap ''read'' (Wrap ''disk'' errFileNotFound))) = Some 404
   \<and> writeErrorResponse \<lparr>statusCode = None, body = []\<rparr>
        (Wrap ''read'' (Wrap ''disk'' errFileNotFound))
     = writeErrorResponse \<lparr>statusCode = None, body = []\<rparr> errFileNotFound"
  using writeErrorResponse_status [of "\<lparr>statusCode = None, body = []\<rparr>"
          "Wrap ''read'' (Wrap ''disk'' errFileNotFound)" "[]"]
        writeErrorResponse_status [of "\<lparr>statusCode = None, body = []\<rparr>"
          "errFileNotFound" "[''read'', ''disk'']"]
  by simp

text \<open>
  The claim as written sends drive not found to 404. \<^verbatim>\<open>errDiskNotFound\<close> is not among
  the cases of the \<^verbatim>\<open>switch\<close>, so it takes the default branch.
\<close>

theorem disk_not_found_status_counterexample:
  "statusCode (writeErrorResponse \<lparr>statusCode = None, body = []\<rparr> errDiskNotFound) = Some 403
   \<and> statusCode (writeErrorResponse \<lparr>statusCode = None, body = []\<rparr> errDiskNotFound)
       \<noteq> Some StatusNotFound"
  by (simp add: writeErrorResponse_def Let_def WriteHeader_def Write_Error_def
        StatusNotFound_def StatusForbidden_def)

section \<open>The gateway\<close>

lemmas sample_defs = sample_env_def sample_request_def sample_server_def sample_claims_def
  sample_drive_def

text \<open>
  C10. When the slot of the server's coordinate holds no drive, \<^verbatim>\<open>IsAuthValid\<close>, and with
  it \<^verbatim>\<open>IsValid\<close> and every HTTP handler, answers with the drive-not-found error and
  goes no further: the outcome is the same for every request and for every credential,
  token parser and clock of the environment.
\<close>

theorem unattached_rejected_first:
  assumes "getStorage (globalLocalSetDrives (globals E)) s = Ret None"
  shows "IsAuthValid E s w r = Ret (False, writeErrorResponse w errDiskNotFound)
       \<and> IsValid E s w r = Ret (False, writeErrorResponse w errDiskNotFound)
       \<and> HealthHandler E s w r = Ret (writeErrorResponse w errDiskNotFound)
       \<and> httpHandler dispatch E s w r = Ret (writeErrorResponse w errDiskNotFound)
       \<and> body (writeErrorResponse w errDiskNotFound) = body w @ [errDiskNotFound]"
  using assms
  by (simp add: IsAuthValid_def IsValid_def HealthHandler_def httpHandler_def
        writeErrorResponse_def Write_Error_def WriteHeader_def Let_def)

theorem unattached_rejected_first_witness:
  "getStorage (globalLocalSetDrives (globals (sample_env None))) sample_server = Ret None
   \<and> IsValid (sample_env None) sample_server \<lparr>statusCode = None, body = []\<rparr>
        (sample_request ''signed-for-minio'' ''disk-id=d1'' ''2026-10-31T00:00:00Z'' ''d1'')
      = Ret (False, \<lparr>statusCode = Some 403, body = [errDiskNotFound]\<rparr>)"
proof -
  have slot: "getStorage (globalLocalSetDrives (globals (sample_env None))) sample_server
      = Ret None"
    by (simp add: getStorage_def index_def sample_defs)
  have resp: "writeErrorResponse \<lparr>statusCode = None, body = []\<rparr> errDiskNotFound
      = \<lparr>statusCode = Some 403, body = [errDiskNotFound]\<rparr>"
    by (simp add: writeErrorResponse_def Let_def WriteHeader_def Write_Error_def
          StatusForbidden_def)
  show ?thesis
    using unattached_rejected_first [OF slot] slot resp by simp
qed

text \<open>
  C3, as the code has it. On an attached drive, once authentication and form parsing
  have passed: an empty disk-id passes \<^verbatim>\<open>IsValid\<close> and \<^verbatim>\<open>checkID\<close>; a non-empty disk-id
  that differs from the drive's current id is rejected by \<^verbatim>\<open>IsValid\<close> with the
  stale-drive error, and by the grid handlers, which go through \<^verbatim>\<open>checkID\<close>, with the
  drive-not-found error; a disk-id equal to the drive's current id passes both.
\<close>

theorem identity_validation:
  assumes "getStorage (globalLocalSetDrives (globals E)) s = Ret (Some st)"
    and "storageServerRequestValidate E r = None"
    and "ParseForm r = Inr diskID"
  shows "(diskID = [] \<longrightarrow>
            IsValid E s w r = Ret (True, w)
          \<and> checkID (globalLocalSetDrives (globals E)) s diskID = Ret True)
       \<and> (diskID \<noteq> [] \<and> GetDiskID st = Inr storedDiskID \<and> diskID \<noteq> storedDiskID \<longrightarrow>
            IsValid E s w r = Ret (False, writeErrorResponse w errDiskStale)
          \<and> DiskInfoHandler dispatch (globalLocalSetDrives (globals E)) s diskID
              = Ret (RemoteErr errDiskNotFound))
       \<and> (GetDiskID st = Inr diskID \<longrightarrow>
            IsValid E s w r = Ret (True, w)
          \<and> checkID (globalLocalSetDrives (globals E)) s diskID = Ret True)"
  using assms
  by (simp add: IsValid_def IsAuthValid_def checkID_def DiskInfoHandler_def)

theorem identity_validation_witness:
  "IsValid (sample_env (Some sample_drive)) sample_server \<lparr>statusCode = None, body = []\<rparr>
      (sample_request ''signed-for-minio'' ''disk-id=d1'' ''2026-10-31T00:00:00Z'' [])
     = Ret (True, \<lparr>statusCode = None, body = []\<rparr>)
   \<and> IsValid (sample_env (Some sample_drive)) sample_server \<lparr>statusCode = None, body = []\<rparr>
      (sample_request ''signed-for-minio'' ''disk-id=d1'' ''2026-10-31T00:00:00Z'' ''d2'')
     = Ret (False, \<lparr>statusCode = Some 412, body = [errDiskStale]\<rparr>)
   \<and> IsValid (sample_env (Some sample_drive)) sample_server \<lparr>statusCode = None, body = []\<rparr>
      (sample_request ''signed-for-minio'' ''disk-id=d1'' ''2026-10-31T00:00:00Z'' ''d1'')
     = Ret (True, \<lparr>statusCode = None, body = []\<rparr>)"
proof -
  let ?E = "sample_env (Some sample_drive)"
  have slot: "getStorage (globalLocalSetDrives (globals ?E)) sample_server
      = Ret (Some sample_drive)"
    by (simp add: getStorage_def index_def sample_defs)
  have auth: "storageServerRequestValidate ?E
      (sample_request ''signed-for-minio'' ''disk-id=d1'' ''2026-10-31T00:00:00Z'' d) = None" for d
    by (simp add: storageServerRequestValidate_def sample_defs time_Sub_def minDuration_def
          maxDuration_def DefaultSkewTime_def Minute_def)
  have form: "ParseForm (sample_request t q tm d) = Inr d" for t q tm d
    by (simp add: sample_request_def)
  have stored: "GetDiskID sample_drive = Inr ''d1''"
    by (simp add: sample_drive_def)
  have stale: "writeErrorResponse \<lparr>statusCode = None, body = []\<rparr> errDiskStale
      = \<lparr>statusCode = Some 412, body = [errDiskStale]\<rparr>"
    by (simp add: writeErrorResponse_def Let_def WriteHeader_def Write_Error_def
          StatusPreconditionFailed_def)
  show ?thesis
    using identity_validation [OF slot auth [of "[]"] form,
        where storedDiskID = "''d1''" and w = "\<lparr>statusCode = None, body = []\<rparr>"
          and dispatch = "Ret ()"]
      identity_validation [OF slot auth [of "''d2''"] form,
        where storedDiskID = "''d1''" and w = "\<lparr>statusCode = None, body = []\<rparr>"
          and dispatch = "Ret ()"]
      identity_validation [OF slot auth [of "''d1''"] form,
        where storedDiskID = "''d1''" and w = "\<lparr>statusCode = None, body = []\<rparr>"
          and dispatch = "Ret ()"]
      stored stale
    by simp
qed

text \<open>
  The claim as written has every identity-gated operation answer a mismatch with the
  stale-drive condition. The grid handlers answer \<^verbatim>\<open>errDiskNotFound\<close>.
\<close>

theorem grid_mismatch_counterexample:
  "DiskInfoHandler (Ret ()) [[[Some sample_drive]]] sample_server ''d2''
     = Ret (RemoteErr errDiskNotFound)
   \<and> DiskInfoHandler (Ret ()) [[[Some sample_drive]]] sample_server ''d2''
     \<noteq> Ret (RemoteErr errDiskStale)"
  by (simp add: DiskInfoHandler_def checkID_def getStorage_def index_def sample_defs)

section \<open>Request authentication\<close>

lemma wrap64_minDuration: "wrap64 (minDuration * (- 1)) = minDuration"
  by (simp add: wrap64_def minDuration_def)

lemma wrap64_id: "minDuration \<le> x \<Longrightarrow> x \<le> maxDuration \<Longrightarrow> wrap64 x = x"
  by (simp add: wrap64_def minDuration_def maxDuration_def)

lemma skew_check:
  assumes "ExtractToken E (Authorization r) = Inr token"
    and "ParseWithStandardClaims E token (SecretKey (globalActiveCred E)) = Some cl"
    and "claims_AccessKey cl = AccessKey (globalActiveCred E)
         \<or> claims_Subject cl = AccessKey (globalActiveCred E)"
    and "claims_Audience cl = RawQuery r"
    and "time_Parse E (X_Minio_Time r) = Some t"
  shows "storageServerRequestValidate E r =
          (if DefaultSkewTime < \<bar>t - UTCNow E\<bar> \<and> minDuration < t - UTCNow E
           then Some errSkewedAuthTime else None)"
proof -
  let ?d = "t - UTCNow E"
  have skew: "0 < DefaultSkewTime" "DefaultSkewTime < maxDuration"
    by (simp_all add: DefaultSkewTime_def Minute_def maxDuration_def)
  consider "?d \<le> minDuration" | "minDuration < ?d" "?d < 0" | "0 \<le> ?d" "?d \<le> maxDuration"
    | "maxDuration < ?d" by linarith
  then have "(let delta0 = time_Sub t (UTCNow E);
                  delta = (if delta0 < 0 then wrap64 (delta0 * (- 1)) else delta0)
              in delta > DefaultSkewTime)
             = (DefaultSkewTime < \<bar>?d\<bar> \<and> minDuration < ?d)"
  proof cases
    case 1
    then have "time_Sub t (UTCNow E) = minDuration"
      by (auto simp: time_Sub_def minDuration_def maxDuration_def)
    then show ?thesis using 1 skew wrap64_minDuration
      by (simp add: Let_def minDuration_def)
  next
    case 2
    then have "time_Sub t (UTCNow E) = ?d"
      by (auto simp: time_Sub_def minDuration_def maxDuration_def)
    moreover have "wrap64 (?d * (- 1)) = - ?d"
      using 2 wrap64_id [of "- ?d"] by (simp add: minDuration_def maxDuration_def)
    ultimately show ?thesis using 2 by (simp add: Let_def)
  next
    case 3
    then have "time_Sub t (UTCNow E) = ?d"
      by (auto simp: time_Sub_def minDuration_def maxDuration_def)
    then show ?thesis using 3 by (simp add: Let_def minDuration_def)
  next
    case 4
    then have "time_Sub t (UTCNow E) = maxDuration"
      by (auto simp: time_Sub_def minDuration_def maxDuration_def)
    then show ?thesis using 4 skew by (simp add: Let_def minDuration_def maxDuration_def)
  qed
  then show ?thesis
    using assms unfolding storageServerRequestValidate_def
    by (simp add: Let_def)
qed

lemma sample_validate:
  "storageServerRequestValidate (sample_env slot)
      (sample_request ''signed-for-minio'' ''disk-id=d1'' ''2026-10-31T00:00:00Z'' d) = None"
  "storageServerRequestValidate (sample_env slot)
      (sample_request ''forged'' ''disk-id=d1'' ''2026-10-31T00:00:00Z'' d)
     = Some errAuthentication"
  "storageServerRequestValidate (sample_env slot)
      (sample_request ''signed-for-other'' ''disk-id=d1'' ''2026-10-31T00:00:00Z'' d)
     = Some errAuthentication"
  "storageServerRequestValidate (sample_env slot)
      (sample_request ''signed-for-minio'' ''disk-id=d2'' ''2026-10-31T00:00:00Z'' d)
     = Some errAuthentication"
  "storageServerRequestValidate (sample_env slot)
      (sample_request ''signed-for-minio'' ''disk-id=d1'' ''2026-10-31T00:15:00Z'' d) = None"
  "storageServerRequestValidate (sample_env slot)
      (sample_request ''signed-for-minio'' ''disk-id=d1'' ''2026-10-30T23:45:00Z'' d) = None"
  "storageServerRequestValidate (sample_env slot)
      (sample_request ''signed-for-minio'' ''disk-id=d1'' ''2026-10-31T00:15:01Z'' d)
     = Some errSkewedAuthTime"
  "storageServerRequestValidate (sample_env slot)
      (sample_request ''signed-for-minio'' ''disk-id=d1'' ''2026-10-30T23:44:59Z'' d)
     = Some errSkewedAuthTime"
  by (simp_all add: storageServerRequestValidate_def sample_defs time_Sub_def minDuration_def
        maxDuration_def DefaultSkewTime_def Minute_def wrap64_def)

text \<open>
  C6, as the code has it. For a request whose token could be extracted:
  a token that does not verify under the node's secret, a token whose access key and
  subject are both different from the node's access key, and a token whose audience is
  not the request's raw query string all fail with \<^verbatim>\<open>errAuthentication\<close>; a token that
  passes these checks with a timestamp more than fifteen minutes from the clock, in
  either direction, fails with \<^verbatim>\<open>errSkewedAuthTime\<close>, as long as the timestamp is less
  than \<open>2 ^ 63\<close> nanoseconds before the clock. Such a request fails with
  \<^verbatim>\<open>errMalformedAuth\<close> only when the token passes the three checks and the timestamp
  cannot be parsed.
\<close>

theorem request_validation_errors:
  assumes "ExtractToken E (Authorization r) = Inr token"
  shows "(ParseWithStandardClaims E token (SecretKey (globalActiveCred E)) = None \<longrightarrow>
            storageServerRequestValidate E r = Some errAuthentication)
       \<and> (ParseWithStandardClaims E token (SecretKey (globalActiveCred E)) = Some cl
            \<and> claims_AccessKey cl \<noteq> AccessKey (globalActiveCred E)
            \<and> claims_Subject cl \<noteq> AccessKey (globalActiveCred E) \<longrightarrow>
            storageServerRequestValidate E r = Some errAuthentication)
       \<and> (ParseWithStandardClaims E token (SecretKey (globalActiveCred E)) = Some cl
            \<and> (claims_AccessKey cl = AccessKey (globalActiveCred E)
                 \<or> claims_Subject cl = AccessKey (globalActiveCred E))
            \<and> claims_Audience cl \<noteq> RawQuery r \<longrightarrow>
            storageServerRequestValidate E r = Some errAuthentication)
       \<and> (ParseWithStandardClaims E token (SecretKey (globalActiveCred E)) = Some cl
            \<and> (claims_AccessKey cl = AccessKey (globalActiveCred E)
                 \<or> claims_Subject cl = AccessKey (globalActiveCred E))
            \<and> claims_Audience cl = RawQuery r
            \<and> time_Parse E (X_Minio_Time r) = Some t
            \<and> DefaultSkewTime < \<bar>t - UTCNow E\<bar> \<and> minDuration < t - UTCNow E \<longrightarrow>
            storageServerRequestValidate E r = Some errSkewedAuthTime)
       \<and> ((storageServerRequestValidate E r = Some errMalformedAuth)
            = (\<exists>c. ParseWithStandardClaims E token (SecretKey (globalActiveCred E)) = Some c
                 \<and> (claims_AccessKey c = AccessKey (globalActiveCred E)
                      \<or> claims_Subject c = AccessKey (globalActiveCred E))
                 \<and> claims_Audience c = RawQuery r
                 \<and> time_Parse E (X_Minio_Time r) = None))"
proof (intro conjI impI)
  assume "ParseWithStandardClaims E token (SecretKey (globalActiveCred E)) = None"
  then show "storageServerRequestValidate E r = Some errAuthentication"
    using assms by (simp add: storageServerRequestValidate_def)
next
  assume "ParseWithStandardClaims E token (SecretKey (globalActiveCred E)) = Some cl
            \<and> claims_AccessKey cl \<noteq> AccessKey (globalActiveCred E)
            \<and> claims_Subject cl \<noteq> AccessKey (globalActiveCred E)"
  then show "storageServerRequestValidate E r = Some errAuthentication"
    using assms by (simp add: storageServerRequestValidate_def)
next
  assume "ParseWithStandardClaims E token (SecretKey (globalActiveCred E)) = Some cl
            \<and> (claims_AccessKey cl = AccessKey (globalActiveCred E)
                 \<or> claims_Subject cl = AccessKey (globalActiveCred E))
            \<and> claims_Audience cl \<noteq> RawQuery r"
  then show "storageServerRequestValidate E r = Some errAuthentication"
    using assms by (auto simp add: storageServerRequestValidate_def)
next
  assume a: "ParseWithStandardClaims E token (SecretKey (globalActiveCred E)) = Some cl
            \<and> (claims_AccessKey cl = AccessKey (globalActiveCred E)
                 \<or> claims_Subject cl = AccessKey (globalActiveCred E))
            \<and> claims_Audience cl = RawQuery r
            \<and> time_Parse E (X_Minio_Time r) = Some t
            \<and> DefaultSkewTime < \<bar>t - UTCNow E\<bar> \<and> minDuration < t - UTCNow E"
  then show "storageServerRequestValidate E r = Some errSkewedAuthTime"
    using skew_check [OF assms, of cl t] by simp
next
  show "(storageServerRequestValidate E r = Some errMalformedAuth)
      = (\<exists>c. ParseWithStandardClaims E token (SecretKey (globalActiveCred E)) = Some c
           \<and> (claims_AccessKey c = AccessKey (globalActiveCred E)
                \<or> claims_Subject c = AccessKey (globalActiveCred E))
           \<and> claims_Audience c = RawQuery r
           \<and> time_Parse E (X_Minio_Time r) = None)"
    using assms
    by (auto simp: storageServerRequestValidate_def Let_def split: option.splits)
qed

theorem request_validation_errors_witness:
  "storageServerRequestValidate (sample_env None)
      (sample_request ''forged'' ''disk-id=d1'' ''2026-10-31T00:00:00Z'' [])
     = Some errAuthentication
   \<and> storageServerRequestValidate (sample_env None)
      (sample_request ''signed-for-other'' ''disk-id=d1'' ''2026-10-31T00:00:00Z'' [])
     = Some errAuthentication
   \<and> storageServerRequestValidate (sample_env None)
      (sample_request ''signed-for-minio'' ''disk-id=d2'' ''2026-10-31T00:00:00Z'' [])
     = Some errAuthentication
   \<and> storageServerRequestValidate (sample_env None)
      (sample_request ''signed-for-minio'' ''disk-id=d1'' ''2026-10-31T00:15:01Z'' [])
     = Some errSkewedAuthTime"
proof -
  let ?E = "sample_env None"
  have tok: "ExtractToken ?E (Authorization (sample_request tk q tm [])) = Inr tk"
    if "tk \<noteq> []" for tk q tm
    using that by (simp add: sample_defs)
  have p1: "ParseWithStandardClaims ?E ''forged'' (SecretKey (globalActiveCred ?E)) = None"
    by (simp add: sample_defs)
  have p2: "ParseWithStandardClaims ?E ''signed-for-other'' (SecretKey (globalActiveCred ?E))
      = Some (sample_claims\<lparr>claims_AccessKey := ''other''\<rparr>)"
    by (simp add: sample_env_def)
  have o2: "claims_AccessKey (sample_claims\<lparr>claims_AccessKey := ''other''\<rparr>)
        \<noteq> AccessKey (globalActiveCred ?E)
      \<and> claims_Subject (sample_claims\<lparr>claims_AccessKey := ''other''\<rparr>)
        \<noteq> AccessKey (globalActiveCred ?E)"
    by (simp add: sample_defs)
  have p3: "ParseWithStandardClaims ?E ''signed-for-minio'' (SecretKey (globalActiveCred ?E))
      = Some sample_claims"
    by (simp add: sample_env_def)
  have o3: "claims_AccessKey sample_claims = AccessKey (globalActiveCred ?E)"
    by (simp add: sample_defs)
  have a3: "claims_Audience sample_claims \<noteq> RawQuery (sample_request tk ''disk-id=d2'' tm [])"
    for tk tm
    by (simp add: sample_defs)
  have a4: "claims_Audience sample_claims = RawQuery (sample_request tk ''disk-id=d1'' tm [])"
    for tk tm
    by (simp add: sample_defs)
  have t4: "time_Parse ?E (X_Minio_Time (sample_request tk q ''2026-10-31T00:15:01Z'' []))
      = Some (1793405701 * 1000000000)" for tk q
    by (simp add: sample_defs)
  have s4: "DefaultSkewTime < \<bar>1793405701 * 1000000000 - UTCNow ?E\<bar>
      \<and> minDuration < 1793405701 * 1000000000 - UTCNow ?E"
    by (simp add: sample_defs DefaultSkewTime_def Minute_def minDuration_def)
  show ?thesis
    using request_validation_errors [OF tok, of "''forged''" "''disk-id=d1''"
            "''2026-10-31T00:00:00Z''"] p1
      request_validation_errors [OF tok, of "''signed-for-other''" "''disk-id=d1''"
            "''2026-10-31T00:00:00Z''" "sample_claims\<lparr>claims_AccessKey := ''other''\<rparr>"] p2 o2
      request_validation_errors [OF tok, of "''signed-for-minio''" "''disk-id=d2''"
            "''2026-10-31T00:00:00Z''" sample_claims] p3 o3 a3
      request_validation_errors [OF tok, of "''signed-for-minio''" "''disk-id=d1''"
            "''2026-10-31T00:15:01Z''" sample_claims "1793405701 * 1000000000"] a4 t4 s4
    by simp
qed

text \<open>
  The claim as written gives a signer that is not the node's credential the malformed
  error, distinct from the error for a wrong audience. Both are \<^verbatim>\<open>errAuthentication\<close>.
\<close>

theorem signer_mismatch_counterexample:
  "storageServerRequestValidate (sample_env None)
      (sample_request ''signed-for-other'' ''disk-id=d1'' ''2026-10-31T00:00:00Z'' [])
     \<noteq> Some errMalformedAuth
   \<and> storageServerRequestValidate (sample_env None)
      (sample_request ''signed-for-other'' ''disk-id=d1'' ''2026-10-31T00:00:00Z'' [])
     = storageServerRequestValidate (sample_env None)
      (sample_request ''signed-for-minio'' ''disk-id=d2'' ''2026-10-31T00:00:00Z'' [])"
  by (simp add: sample_validate)

text \<open>
  C5. The claim has every timestamp more than fifteen minutes from the clock rejected.
  The timestamp 1700-01-01T00:00:00Z lies more than \<open>2 ^ 63\<close> nanoseconds before the
  sample node's clock: \<^verbatim>\<open>Sub\<close> saturates at the minimum duration, \<^verbatim>\<open>delta *= -1\<close> wraps
  back to the same negative value, the comparison with \<^verbatim>\<open>DefaultSkewTime\<close> fails, and the
  request is accepted. (At fifteen minutes exactly the request is accepted and one second
  further it is rejected, in both directions: \<open>sample_validate\<close>.)
\<close>

theorem far_past_timestamp_accepted:
  "time_Parse (sample_env None) ''1700-01-01T00:00:00Z'' = Some (- 8520336000 * 1000000000)
   \<and> DefaultSkewTime < \<bar>- 8520336000 * 1000000000 - UTCNow (sample_env None)\<bar>
   \<and> storageServerRequestValidate (sample_env None)
        (sample_request ''signed-for-minio'' ''disk-id=d1'' ''1700-01-01T00:00:00Z'' []) = None"
  by (simp add: storageServerRequestValidate_def sample_defs time_Sub_def minDuration_def
        maxDuration_def DefaultSkewTime_def Minute_def wrap64_def)

section \<open>The length field\<close>

lemma Uint32_PutUint32: "Uint32 (PutUint32 v) = v"
  unfolding Uint32_def PutUint32_def
  apply simp
  apply (rule bit_word_eqI)
  apply (auto simp: bit_simps)
  subgoal for n by (cases "n < 24") simp_all
  done

lemma or_push_bit_nat:
  fixes a b :: nat
  assumes "a < 2 ^ n"
  shows "a OR push_bit n b = a + 2 ^ n * b"
proof -
  have "a AND push_bit n b = 0"
  proof (rule bit_eqI)
    fix m
    show "bit (a AND push_bit n b) m = bit (0::nat) m"
    proof (cases "n \<le> m")
      case True
      then have "a < 2 ^ m"
        using assms by (meson le_less_trans not_le power_increasing_iff one_less_numeral_iff semiring_norm(76) less_le_trans)
      then have "\<not> bit a m"
        by (simp add: bit_iff_odd)
      then show ?thesis by (simp add: bit_simps)
    next
      case False
      then show ?thesis by (simp add: bit_simps)
    qed
  qed
  then have "a + push_bit n b = a OR push_bit n b"
    by (rule disjunctive_add_eq_or)
  then show ?thesis by (simp add: push_bit_eq_mult mult.commute)
qed

lemma unat_byte_lt: "unat (b :: byte) < 256"
  using unsigned_less [of b, where 'a = nat] by simp

lemma Uint32_nat:
  "unat (Uint32 [b0, b1, b2, b3])
    = unat b0 + 256 * unat b1 + 65536 * unat b2 + 16777216 * unat b3"
proof -
  have lt: "unat b0 < 256" "unat b1 < 256" "unat b2 < 256" "unat b3 < 256"
    by (rule unat_byte_lt)+
  have u: "unat (ucast b :: 32 word) = unat b" for b :: byte
    using unat_byte_lt [of b] by (simp add: unsigned_ucast_eq take_bit_nat_eq_self)
  have p8: "unat (push_bit 8 (ucast b :: 32 word)) = push_bit 8 (unat b)" for b :: byte
  proof -
    have "push_bit 8 (unat b) < (2::nat) ^ 32"
      using unat_byte_lt [of b] by (simp add: push_bit_eq_mult)
    then show ?thesis
      by (simp add: unsigned_push_bit_eq u take_bit_nat_eq_self)
  qed
  have p16: "unat (push_bit 16 (ucast b :: 32 word)) = push_bit 16 (unat b)" for b :: byte
  proof -
    have "push_bit 16 (unat b) < (2::nat) ^ 32"
      using unat_byte_lt [of b] by (simp add: push_bit_eq_mult)
    then show ?thesis
      by (simp add: unsigned_push_bit_eq u take_bit_nat_eq_self)
  qed
  have p24: "unat (push_bit 24 (ucast b :: 32 word)) = push_bit 24 (unat b)" for b :: byte
  proof -
    have "push_bit 24 (unat b) < (2::nat) ^ 32"
      using unat_byte_lt [of b] by (simp add: push_bit_eq_mult)
    then show ?thesis
      by (simp add: unsigned_push_bit_eq u take_bit_nat_eq_self)
  qed
  have "unat (Uint32 [b0, b1, b2, b3])
      = unat b0 OR push_bit 8 (unat b1) OR push_bit 16 (unat b2) OR push_bit 24 (unat b3)"
    by (simp add: Uint32_def unsigned_or_eq u p8 p16 p24)
  also have "\<dots> = unat b0 OR push_bit 8 (unat b1 OR push_bit 8 (unat b2 OR push_bit 8 (unat b3)))"
    by (simp add: push_bit_or or.assoc)
  also have "\<dots> = unat b0 + 256 * unat b1 + 65536 * unat b2 + 16777216 * unat b3"
  proof -
    have 1: "unat b2 OR push_bit 8 (unat b3) = unat b2 + 256 * unat b3"
      using or_push_bit_nat [of "unat b2" 8 "unat b3"] lt by simp
    have 2: "unat b1 OR push_bit 8 (unat b2 + 256 * unat b3)
        = unat b1 + 256 * (unat b2 + 256 * unat b3)"
      using or_push_bit_nat [of "unat b1" 8] lt by simp
    have 3: "unat b0 OR push_bit 8 (unat b1 + 256 * (unat b2 + 256 * unat b3))
        = unat b0 + 256 * (unat b1 + 256 * (unat b2 + 256 * unat b3))"
      using or_push_bit_nat [of "unat b0" 8] lt by simp
    show ?thesis unfolding 1 2 3 by simp
  qed
  finally show ?thesis .
qed

section \<open>The client-side reader\<close>

lemma waitForHTTPStream_Nil: "waitForHTTPStream [] w = (w, Some io_EOF)"
  by (subst waitForHTTPStream.simps) (simp add: ReadFull_def)

lemma waitForHTTPStream_Cons:
  "waitForHTTPStream (tag # rest) w =
    (if tag = 0 then (w @ rest, None)
     else if tag = 1 then (w, Some (errors_New rest))
     else if tag = 2 then
       (case ReadFull 4 rest of
          (Inl e, rest1) \<Rightarrow> (w, Some e)
        | (Inr tmp4, rest1) \<Rightarrow>
            if length rest1 < unat (Uint32 tmp4) then (w @ rest1, Some io_ErrUnexpectedEOF)
            else waitForHTTPStream (drop (unat (Uint32 tmp4)) rest1)
                   (w @ take (unat (Uint32 tmp4)) rest1))
     else if tag = 32 then waitForHTTPStream rest w
     else (w, Some (unexpected_filler tag)))"
  by (subst waitForHTTPStream.simps)
     (auto simp: ReadFull_def ReadAll_def LimitReader_def CopyBuffer_def Let_def
        split: prod.splits sum.splits)

lemma pass_through: "foldl reader_step (PassThrough, w) s = (PassThrough, w @ s)"
  by (induction s arbitrary: w) simp_all

lemma error_message: "foldl reader_step (ErrorMessage m, w) s = (ErrorMessage (m @ s), w)"
  by (induction s arbitrary: m) simp_all

lemma violation: "foldl reader_step (Violation t, w) s = (Violation t, w)"
  by (induction s) simp_all

lemma block_payload:
  "1 \<le> n \<Longrightarrow> foldl reader_step (BlockPayload n, w) s =
     (if n \<le> length s then foldl reader_step (ReadTag, w @ take n s) (drop n s)
      else (BlockPayload (n - length s), w @ s))"
proof (induction s arbitrary: n w)
  case Nil
  then show ?case by simp
next
  case (Cons b s)
  show ?case
  proof (cases "n \<le> 1")
    case True
    with Cons.prems have "n = 1" by simp
    then show ?thesis by simp
  next
    case False
    then have "1 \<le> n - 1" by simp
    from Cons.IH [OF this, of "w @ [b]"] False show ?thesis
      by (auto simp: take_Cons' drop_Cons')
  qed
qed

lemma block_length_short:
  "length s < 4 \<Longrightarrow> foldl reader_step (BlockLength [], w) s = (BlockLength s, w)"
proof -
  have "length f + length s < 4 \<Longrightarrow>
      foldl reader_step (BlockLength f, w) s = (BlockLength (f @ s), w)" for f
    by (induction s arbitrary: f) simp_all
  from this [of "[]"] show "length s < 4 \<Longrightarrow> ?thesis" by simp
qed

lemma block_length_full:
  "foldl reader_step (BlockLength [], w) (a # b # c # d # rest) =
     (if little_endian [a, b, c, d] = 0 then foldl reader_step (ReadTag, w) rest
      else foldl reader_step (BlockPayload (little_endian [a, b, c, d]), w) rest)"
  by simp

lemma little_endian_Uint32: "unat (Uint32 [a, b, c, d]) = little_endian [a, b, c, d]"
  by (simp add: Uint32_nat)

text \<open>
  C2. For every input byte stream and every payload already delivered,
  \<^verbatim>\<open>waitForHTTPStream\<close> returns what the state machine of the specification returns: the
  heartbeat tag is skipped, the success tag passes the rest of the stream through, the
  error tag turns the rest of the stream into the error, the data-block tag reads a
  4-byte little-endian length and exactly that many payload bytes (the truncation error
  if the stream ends first) and reads the next tag, and any other tag fails at once.
\<close>

theorem waitForHTTPStream_state_machine:
  "waitForHTTPStream respBody w = frame_reader respBody w"
  unfolding frame_reader_def
proof (induction respBody arbitrary: w rule: length_induct)
  case (1 s)
  show ?case
  proof (cases s)
    case Nil
    then show ?thesis by (simp add: waitForHTTPStream_Nil)
  next
    case (Cons tag rest)
    consider "tag = 0" | "tag = 1" | "tag = 32" | "tag = 2"
      | "tag \<noteq> 0" "tag \<noteq> 1" "tag \<noteq> 2" "tag \<noteq> 32" by blast
    then show ?thesis
    proof cases
      case 1
      then show ?thesis using Cons by (simp add: waitForHTTPStream_Cons pass_through)
    next
      case 2
      then show ?thesis using Cons by (simp add: waitForHTTPStream_Cons error_message)
    next
      case 3
      have "waitForHTTPStream rest w = reader_end (foldl reader_step (ReadTag, w) rest)"
        using "1.IH" Cons by simp
      then show ?thesis using Cons 3 by (simp add: waitForHTTPStream_Cons)
    next
      case 5
      then show ?thesis using Cons by (simp add: waitForHTTPStream_Cons violation)
    next
      case 4
      show ?thesis
      proof (cases "length rest < 4")
        case True
        then have "foldl reader_step (ReadTag, w) s = (BlockLength rest, w)"
          using Cons 4 by (simp add: block_length_short)
        moreover have "waitForHTTPStream s w
            = (w, Some (if rest = [] then io_EOF else io_ErrUnexpectedEOF))"
          using Cons 4 True by (simp add: waitForHTTPStream_Cons ReadFull_def)
        ultimately show ?thesis by simp
      next
        case False
        then obtain a b c d rest1 where rest: "rest = a # b # c # d # rest1"
          by (cases rest; cases "tl rest"; cases "tl (tl rest)"; cases "tl (tl (tl rest))")
             auto
        define n where "n = little_endian [a, b, c, d]"
        have rf: "ReadFull 4 rest = (Inr [a, b, c, d], rest1)"
          by (simp add: rest ReadFull_def)
        have code: "waitForHTTPStream s w =
            (if length rest1 < n then (w @ rest1, Some io_ErrUnexpectedEOF)
             else waitForHTTPStream (drop n rest1) (w @ take n rest1))"
          unfolding n_def using Cons 4 rf
          by (simp add: waitForHTTPStream_Cons little_endian_Uint32 del: little_endian.simps)
        have machine: "foldl reader_step (ReadTag, w) s =
            (if n = 0 then foldl reader_step (ReadTag, w) rest1
             else foldl reader_step (BlockPayload n, w) rest1)"
          unfolding n_def using Cons 4 rest by (simp del: little_endian.simps)
        show ?thesis
        proof (cases "length rest1 < n")
          case True
          then have "1 \<le> n" by simp
          from block_payload [OF this, of w rest1] True machine code show ?thesis
            by simp
        next
          case False
          have "length (drop n rest1) < length s"
            using Cons rest by simp
          then have ih: "waitForHTTPStream (drop n rest1) (w @ take n rest1)
              = reader_end (foldl reader_step (ReadTag, w @ take n rest1) (drop n rest1))"
            using "1.IH" by blast
          show ?thesis
          proof (cases "n = 0")
            case True
            then show ?thesis using machine code ih by simp
          next
            case n: False
            then have "1 \<le> n" by simp
            from block_payload [OF this, of w rest1] False machine code ih show ?thesis
              by simp
          qed
        qed
      qed
    qed
  qed
qed

theorem waitForHTTPStream_state_machine_witness:
  "waitForHTTPStream [32, 2, 1, 0, 0, 0, 65, 32, 0, 66] [] = ([65, 66], None)
   \<and> waitForHTTPStream [2, 2, 0, 0, 0, 65] [7] = ([7, 65], Some io_ErrUnexpectedEOF)
   \<and> waitForHTTPStream [32, 1, 65, 66] [] = ([], Some (errors_New [65, 66]))
   \<and> waitForHTTPStream [32, 3, 65, 66] [] = ([], Some (unexpected_filler 3))"
  using waitForHTTPStream_state_machine [of "[32, 2, 1, 0, 0, 0, 65, 32, 0, 66]" "[]"]
    waitForHTTPStream_state_machine [of "[2, 2, 0, 0, 0, 65]" "[7]"]
    waitForHTTPStream_state_machine [of "[32, 1, 65, 66]" "[]"]
    waitForHTTPStream_state_machine [of "[32, 3, 65, 66]" "[]"]
  by (simp add: frame_reader_def)

lemma waitForHTTPResponse_heartbeats:
  "waitForHTTPResponse (replicate k 32 @ s) = waitForHTTPResponse s"
  by (induction k) simp_all

lemma waitForHTTPStream_heartbeats:
  "waitForHTTPStream (replicate k 32 @ s) w = waitForHTTPStream s w"
  by (induction k) (simp_all add: waitForHTTPStream_Cons)

lemma waitForHTTPStream_block:
  assumes "length b < 2 ^ 32"
  shows "waitForHTTPStream (2 # PutUint32 (word_of_nat (length b)) @ b @ s) w
          = waitForHTTPStream s (w @ b)"
proof -
  obtain a0 a1 a2 a3 where p: "PutUint32 (word_of_nat (length b)) = [a0, a1, a2, a3]"
    by (simp add: PutUint32_def)
  have "Uint32 [a0, a1, a2, a3] = word_of_nat (length b)"
    using Uint32_PutUint32 [of "word_of_nat (length b)"] p by simp
  then have n: "unat (Uint32 [a0, a1, a2, a3]) = length b"
    using assms by (simp add: unat_of_nat)
  show ?thesis
    by (simp add: p waitForHTTPStream_Cons ReadFull_def n)
qed

lemma waitForHTTPStream_frames:
  "list_all fits frames \<Longrightarrow>
    waitForHTTPStream (concat (map frame_bytes frames) @ s) w
      = waitForHTTPStream s (w @ concat (map (\<lambda>f. case f of Heartbeat \<Rightarrow> [] | DataBlock b \<Rightarrow> b) frames))"
proof (induction frames arbitrary: w)
  case Nil
  then show ?case by simp
next
  case (Cons f frames)
  show ?case
  proof (cases f)
    case Heartbeat
    then show ?thesis using Cons by (simp add: waitForHTTPStream_Cons)
  next
    case (DataBlock b)
    then have "length b < 2 ^ 32" using Cons.prems by simp
    from waitForHTTPStream_block [OF this] DataBlock Cons show ?thesis by simp
  qed
qed

lemma take_leading:
  "i \<le> length (takeWhile (\<lambda>b. b = x) s) \<Longrightarrow> take i s = replicate i x"
proof (induction s arbitrary: i)
  case Nil
  then show ?case by simp
next
  case (Cons a s)
  then show ?case by (cases i) (auto split: if_splits)
qed

text \<open>
  C9, as the code has it. For \<^verbatim>\<open>waitForHTTPResponse\<close>, heartbeat bytes inserted at any
  point up to the terminal byte (the first byte that is not a heartbeat) leave the
  result as it was. For \<^verbatim>\<open>waitForHTTPStream\<close>, heartbeat bytes inserted at a frame
  boundary, after any number of complete heartbeat and data-block frames, leave the
  result as it was.
\<close>

theorem heartbeat_insertion:
  "(i \<le> length (takeWhile (\<lambda>b. b = 32) s) \<longrightarrow>
      waitForHTTPResponse (take i s @ replicate k 32 @ drop i s) = waitForHTTPResponse s)
   \<and> (list_all fits frames \<longrightarrow>
      waitForHTTPStream (concat (map frame_bytes frames) @ replicate k 32 @ rest) w
        = waitForHTTPStream (concat (map frame_bytes frames) @ rest) w)"
proof (intro conjI impI)
  assume i: "i \<le> length (takeWhile (\<lambda>b. b = 32) s)"
  have "waitForHTTPResponse (take i s @ replicate k 32 @ drop i s)
      = waitForHTTPResponse (drop i s)"
    by (simp add: take_leading [OF i] waitForHTTPResponse_heartbeats)
  also have "\<dots> = waitForHTTPResponse (take i s @ drop i s)"
    by (simp only: take_leading [OF i] waitForHTTPResponse_heartbeats)
  finally show "waitForHTTPResponse (take i s @ replicate k 32 @ drop i s)
      = waitForHTTPResponse s" by simp
next
  assume "list_all fits frames"
  then show "waitForHTTPStream (concat (map frame_bytes frames) @ replicate k 32 @ rest) w
        = waitForHTTPStream (concat (map frame_bytes frames) @ rest) w"
    by (simp add: waitForHTTPStream_frames waitForHTTPStream_heartbeats)
qed

theorem heartbeat_insertion_witness:
  "waitForHTTPResponse (take 1 [32, 0, 65] @ replicate 2 32 @ drop 1 [32, 0, 65])
     = waitForHTTPResponse [32, 0, 65]
   \<and> waitForHTTPResponse [32, 0, 65] = Inr [65]
   \<and> waitForHTTPStream (concat (map frame_bytes [DataBlock [65], Heartbeat])
        @ replicate 2 32 @ [2, 1, 0, 0, 0, 66, 0]) []
     = waitForHTTPStream (concat (map frame_bytes [DataBlock [65], Heartbeat])
        @ [2, 1, 0, 0, 0, 66, 0]) []
   \<and> waitForHTTPStream (concat (map frame_bytes [DataBlock [65], Heartbeat])
        @ [2, 1, 0, 0, 0, 66, 0]) [] = ([65, 66], None)"
proof -
  have pos: "(1::nat) \<le> length (takeWhile (\<lambda>b. b = 32) [32, 0, 65 :: byte])"
    by simp
  have ok: "list_all fits [DataBlock [65], Heartbeat]"
    by simp
  have r: "waitForHTTPStream (concat (map frame_bytes [DataBlock [65], Heartbeat])
        @ [2, 1, 0, 0, 0, 66, 0]) [] = ([65, 66], None)"
    by (simp add: waitForHTTPStream_Cons ReadFull_def Uint32_def PutUint32_def)
  show ?thesis
    using heartbeat_insertion [of 1 "[32, 0, 65]" 2 "[DataBlock [65], Heartbeat]"
            "[2, 1, 0, 0, 0, 66, 0]" "[]"] pos ok r
    by simp
qed

text \<open>
  The claim as written allows the insertion at any point before the terminal byte. A
  heartbeat byte inserted inside a data-block frame is read as part of the length field
  or of the payload.
\<close>

theorem heartbeat_in_block_counterexample:
  "waitForHTTPStream [2, 1, 0, 0, 0, 65, 0] [] = ([65], None)
   \<and> waitForHTTPStream (take 1 [2, 1, 0, 0, 0, 65, 0] @ replicate 1 32
        @ drop 1 [2, 1, 0, 0, 0, 65, 0]) [] = ([0, 65, 0], Some io_ErrUnexpectedEOF)"
  by (simp add: waitForHTTPStream_Cons ReadFull_def Uint32_def waitForHTTPStream_Nil)

section \<open>The block-streaming writer\<close>

lemma task_write_healthy:
  "healthy t \<Longrightarrow> task_write b t = t\<lparr>conn := (conn t)\<lparr>wire := wire (conn t) @ b\<rparr>\<rparr>"
  by (simp add: healthy_def task_write_def conn_Write_def)

lemma task_write_healthy_keeps:
  "healthy t \<Longrightarrow> healthy (task_write b t) \<and> running (task_write b t) = running t
     \<and> wire (conn (task_write b t)) = wire (conn t) @ b"
  by (simp add: task_write_healthy) (simp add: healthy_def)

lemma terminal_healthy:
  "healthy t \<Longrightarrow> healthy (terminal e t) \<and> running (terminal e t) = running t
     \<and> wire (conn (terminal e t)) = wire (conn t) @ terminal_bytes e"
  by (cases e) (simp_all add: terminal_def terminal_bytes_def task_write_healthy_keeps)

lemma live_tick:
  assumes "live h"
  shows "live (h\<lparr>h_task := streamHTTPResponse_step ticker_C (h_task h)\<rparr>)
       \<and> stream_wire (h\<lparr>h_task := streamHTTPResponse_step ticker_C (h_task h)\<rparr>)
           = stream_wire h @ [32]"
  using assms task_write_healthy_keeps [of "h_task h" "[32]"]
  by (simp add: live_def streamHTTPResponse_step_def stream_wire_def)

lemma live_Write:
  assumes "live h"
  shows "\<exists>res h1. Write b h = Some (res, h1) \<and> live h1
       \<and> stream_wire h1 = stream_wire h @ (if b = [] then [] else frame_bytes (DataBlock b))"
proof (cases "b = []")
  case True
  then show ?thesis using assms by (simp add: Write_def)
next
  case False
  let ?t1 = "task_write (2 # PutUint32 (word_of_nat (length b))) (h_task h)"
  have h: "healthy (h_task h)" "running (h_task h)" "h_err h = None" "h_done h"
    using assms by (simp_all add: live_def)
  have 1: "healthy ?t1 \<and> running ?t1 = running (h_task h)
      \<and> wire (conn ?t1) = wire (conn (h_task h)) @ 2 # PutUint32 (word_of_nat (length b))"
    using task_write_healthy_keeps [OF h(1)] by simp
  then have 2: "healthy (task_write b ?t1) \<and> running (task_write b ?t1) = running ?t1
      \<and> wire (conn (task_write b ?t1)) = wire (conn ?t1) @ b"
    using task_write_healthy_keeps [of ?t1 b] by simp
  show ?thesis
    using False h 1 2
    by (simp add: Write_def streamHTTPResponse_step_def live_def stream_wire_def)
qed

lemma live_Close:
  assumes "live h"
  shows "\<exists>h1. CloseWithError e h = Some h1 \<and> \<not> h_done h1 \<and> \<not> running (h_task h1)
       \<and> h_err h1 = e \<and> stream_wire h1 = stream_wire h @ terminal_bytes e"
  using assms terminal_healthy [of "h_task h" e]
  by (simp add: live_def CloseWithError_def streamHTTPResponse_step_def stream_wire_def)

lemma closed_run:
  assumes "\<not> h_done h" "\<not> running (h_task h)" "\<forall>op \<in> set ops. \<forall>b. op \<noteq> WriteOp b"
  shows "run_stream ops h = Some h"
  using assms
proof (induction ops)
  case Nil
  then show ?case by simp
next
  case (Cons op ops)
  then show ?case
    by (cases op) (simp_all add: streamHTTPResponse_step_def CloseWithError_def)
qed

lemma run_stream_live:
  assumes "live h"
    and "filter (\<lambda>op. op \<noteq> Tick) ops = map WriteOp blocks @ [CloseOp None]"
    and "\<forall>b \<in> set blocks. length b < 2 ^ 32"
  shows "\<exists>h1 x. run_stream ops h = Some h1 \<and> stream_wire h1 = stream_wire h @ x
           \<and> (\<forall>w. waitForHTTPStream x w = (w @ concat blocks, None))"
  using assms
proof (induction ops arbitrary: h blocks)
  case Nil
  then show ?case by simp
next
  case (Cons op ops)
  show ?case
  proof (cases op)
    case Tick
    let ?h = "h\<lparr>h_task := streamHTTPResponse_step ticker_C (h_task h)\<rparr>"
    have l: "live ?h" and w: "stream_wire ?h = stream_wire h @ [32]"
      using live_tick [OF Cons.prems(1)] by simp_all
    from Cons.IH [OF l, of blocks] Cons.prems Tick
    obtain h1 x where "run_stream ops ?h = Some h1" "stream_wire h1 = stream_wire ?h @ x"
      "\<forall>w. waitForHTTPStream x w = (w @ concat blocks, None)" by auto
    then show ?thesis using Tick w
      by (intro exI [of _ h1] exI [of _ "32 # x"]) (simp add: waitForHTTPStream_Cons)
  next
    case (WriteOp b)
    then obtain rest where blocks: "blocks = b # rest"
      and f: "filter (\<lambda>op. op \<noteq> Tick) ops = map WriteOp rest @ [CloseOp None]"
      using Cons.prems(2) by (cases blocks) auto
    from live_Write [OF Cons.prems(1), of b] obtain res h0 where
      wr: "Write b h = Some (res, h0)" and l: "live h0"
      and w: "stream_wire h0 = stream_wire h @ (if b = [] then [] else frame_bytes (DataBlock b))"
      by blast
    have small: "\<forall>b \<in> set rest. length b < 2 ^ 32" "length b < 2 ^ 32"
      using Cons.prems(3) blocks by simp_all
    from Cons.IH [OF l f small(1)]
    obtain h1 x where r: "run_stream ops h0 = Some h1" "stream_wire h1 = stream_wire h0 @ x"
      "\<forall>w. waitForHTTPStream x w = (w @ concat rest, None)" by auto
    show ?thesis
    proof (cases "b = []")
      case True
      then show ?thesis using WriteOp wr r w blocks
        by (intro exI [of _ h1] exI [of _ x]) simp
    next
      case False
      have "waitForHTTPStream (frame_bytes (DataBlock b) @ x) w = (w @ b @ concat rest, None)"
        for w
        using waitForHTTPStream_block [OF small(2), of x w] r(3) by simp
      then show ?thesis using WriteOp wr r w blocks False
        by (intro exI [of _ h1] exI [of _ "frame_bytes (DataBlock b) @ x"]) simp
    qed
  next
    case (CloseOp e)
    then have e: "e = None" and blocks: "blocks = []"
      and f: "filter (\<lambda>op. op \<noteq> Tick) ops = []"
      using Cons.prems(2) by (cases blocks; auto)+
    from live_Close [OF Cons.prems(1), of e] obtain h0 where
      c: "CloseWithError e h = Some h0" "\<not> h_done h0" "\<not> running (h_task h0)"
        "stream_wire h0 = stream_wire h @ terminal_bytes e" by blast
    have "\<forall>op \<in> set ops. \<forall>b. op \<noteq> WriteOp b"
      using f by (auto simp: filter_empty_conv)
    from closed_run [OF c(2,3) this] have "run_stream ops h0 = Some h0" .
    then show ?thesis using CloseOp c e blocks
      by (intro exI [of _ h0] exI [of _ "[0]"])
         (simp add: terminal_bytes_def waitForHTTPStream_Cons)
  qed
qed

lemma live_streamHTTPResponse: "room w = None \<Longrightarrow> live (streamHTTPResponse w)"
  by (simp add: live_def streamHTTPResponse_def healthy_def)

text \<open>
  C1, as the code has it. Take any session of the block-streaming writer on a fresh
  connection that accepts every write: the producer's calls are \<^verbatim>\<open>Write\<close> of each block in
  turn and then \<^verbatim>\<open>CloseWithError(nil)\<close>, with the ticker firing any number of times
  anywhere in between. If every block is shorter than \<open>2 ^ 32\<close> bytes, the session runs
  to its end and \<^verbatim>\<open>waitForHTTPStream\<close>, on what has been sent, writes the concatenation
  of the blocks in order and returns nil.
\<close>

theorem stream_roundtrip:
  assumes "filter (\<lambda>op. op \<noteq> Tick) ops = map WriteOp blocks @ [CloseOp None]"
    and "\<forall>b \<in> set blocks. length b < 2 ^ 32"
  shows "\<exists>h. run_stream ops (streamHTTPResponse fresh) = Some h
           \<and> waitForHTTPStream (stream_wire h) [] = (concat blocks, None)"
proof -
  have "live (streamHTTPResponse fresh)"
    by (simp add: live_streamHTTPResponse fresh_def)
  from run_stream_live [OF this assms] show ?thesis
    by (auto simp: stream_wire_def streamHTTPResponse_def fresh_def)
qed

lemma sample_session:
  "run_stream [Tick, WriteOp [65, 66], Tick, Tick, WriteOp [], WriteOp [67], CloseOp None, Tick]
      (streamHTTPResponse fresh)
    = Some \<lparr>h_done = False, h_err = None,
        h_task = \<lparr>canWrite = True,
          conn = \<lparr>wire = [32, 2, 2, 0, 0, 0, 65, 66, 32, 32, 2, 1, 0, 0, 0, 67, 0], room = None\<rparr>,
          running = False\<rparr>\<rparr>"
  by (simp add: streamHTTPResponse_def fresh_def streamHTTPResponse_step_def Write_def
        CloseWithError_def task_write_def conn_Write_def terminal_def PutUint32_def)

theorem stream_roundtrip_witness:
  "filter (\<lambda>op. op \<noteq> Tick)
      [Tick, WriteOp [65, 66], Tick, Tick, WriteOp [], WriteOp [67], CloseOp None, Tick]
     = map WriteOp [[65, 66], [], [67]] @ [CloseOp None]
   \<and> waitForHTTPStream
        [32, 2, 2, 0, 0, 0, 65, 66, 32, 32, 2, 1, 0, 0, 0, 67, 0] [] = ([65, 66, 67], None)"
  using stream_roundtrip [of
      "[Tick, WriteOp [65, 66], Tick, Tick, WriteOp [], WriteOp [67], CloseOp None, Tick]"
      "[[65, 66], [], [67]]"] sample_session
  by (simp add: stream_wire_def)

text \<open>
  The claim as written is for every sequence of blocks. The length field is
  \<^verbatim>\<open>uint32(len(block))\<close>: a block of \<open>2 ^ 32\<close> bytes is sent with length 0, and the reader
  takes its first byte for the next tag.
\<close>

theorem oversized_block_counterexample:
  "run_stream [WriteOp (replicate (2 ^ 32) 1), CloseOp None] (streamHTTPResponse fresh) \<noteq> None
   \<and> waitForHTTPStream
       (stream_wire (the (run_stream [WriteOp (replicate (2 ^ 32) 1), CloseOp None]
          (streamHTTPResponse fresh)))) []
     = ([], Some (errors_New (replicate (2 ^ 32 - 1) 1 @ [0])))"
proof -
  define big :: "byte list" where "big = replicate (2 ^ 32) 1"
  define rest :: "byte list" where "rest = replicate (2 ^ 32 - 1) 1"
  have "Suc (2 ^ 32 - 1) = (2 ^ 32 :: nat)" by simp
  then have "replicate (2 ^ 32) (1::byte) = 1 # replicate (2 ^ 32 - 1) 1"
    by (metis replicate_Suc)
  then have big: "big = 1 # rest"
    by (simp only: big_def rest_def)
  have len: "length big = 2 ^ 32"
    by (simp only: big_def length_replicate)
  have field: "PutUint32 (word_of_nat (length big)) = [0, 0, 0, 0]"
    by (simp add: len PutUint32_def)
  have l0: "live (streamHTTPResponse fresh)"
    by (simp add: live_streamHTTPResponse fresh_def)
  have w0: "stream_wire (streamHTTPResponse fresh) = []"
    by (simp add: stream_wire_def streamHTTPResponse_def fresh_def)
  from live_Write [OF l0, of big] obtain res h0 where
    wr: "Write big (streamHTTPResponse fresh) = Some (res, h0)" and l1: "live h0"
    and w1: "stream_wire h0 = 2 # [0, 0, 0, 0] @ big"
    using big w0 field by auto
  from live_Close [OF l1, of None] obtain h1 where
    cl: "CloseWithError None h0 = Some h1" and w2: "stream_wire h1 = (2 # [0, 0, 0, 0] @ big) @ [0]"
    using w1 by (auto simp: terminal_bytes_def)
  have run: "run_stream [WriteOp big, CloseOp None] (streamHTTPResponse fresh) = Some h1"
    using wr cl by simp
  have "waitForHTTPStream (stream_wire h1) [] = waitForHTTPStream (big @ [0]) []"
    by (simp add: w2 waitForHTTPStream_Cons ReadFull_def Uint32_def)
  also have "\<dots> = ([], Some (errors_New (rest @ [0])))"
    by (simp add: big waitForHTTPStream_Cons)
  finally show ?thesis
    using run unfolding big_def rest_def by simp
qed

section \<open>Completion of a keep-alive session\<close>











lemma task_write_running: "running (task_write b t) = running t"
  by (simp add: task_write_def split: prod.splits)



lemma terminal_running: "running (terminal e t) = running t"
  by (cases e) (simp_all add: terminal_def task_write_running)












section \<open>Drive bootstrap: fatal conditions and the retry loop\<close>











end
